theory Spec2Isabelle
  imports Main "HOL-Library.Word"
begin

unbundle bit_operations_syntax

section \<open>The inotify wire format\<close>

text \<open>
  The monitor reads packed \<^verbatim>\<open>struct inotify_event\<close> records from an inotify file
  descriptor. The structure, the flag bits, \<^verbatim>\<open>NAME_MAX\<close> and \<^verbatim>\<open>EINTR\<close> come from
  the system headers the program includes (\<^verbatim>\<open>sys/inotify.h\<close>, \<^verbatim>\<open>linux/limits.h\<close>,
  \<^verbatim>\<open>errno.h\<close>); their Linux values are written out here. The header is four 32-bit
  fields, read in the machine's byte order (little endian on the usual targets).
\<close>

type_synonym byte = "8 word"

record inotify_event =
  ev_wd :: "32 word"      \<comment> \<open>\<^verbatim>\<open>int wd\<close>, printed through \<open>sint\<close>\<close>
  ev_mask :: "32 word"    \<comment> \<open>\<^verbatim>\<open>uint32_t mask\<close>\<close>
  ev_cookie :: "32 word"  \<comment> \<open>\<^verbatim>\<open>uint32_t cookie\<close>\<close>
  ev_len :: "32 word"     \<comment> \<open>\<^verbatim>\<open>uint32_t len\<close>\<close>

definition sizeof_inotify_event :: nat where
  "sizeof_inotify_event = 16"

definition NAME_MAX :: nat where
  "NAME_MAX = 255"

definition minBufferSize :: nat where
  "minBufferSize = sizeof_inotify_event + NAME_MAX + 1"

definition EINTR :: int where
  "EINTR = 4"

definition u32_le :: "byte \<Rightarrow> byte \<Rightarrow> byte \<Rightarrow> byte \<Rightarrow> 32 word" where
  "u32_le b0 b1 b2 b3 =
     ucast b0 OR push_bit 8 (ucast b1) OR push_bit 16 (ucast b2) OR push_bit 24 (ucast b3)"

definition le_bytes :: "32 word \<Rightarrow> byte list" where
  "le_bytes w = [ucast w, ucast (drop_bit 8 w), ucast (drop_bit 16 w), ucast (drop_bit 24 w)]"

text \<open>
  \<open>read_event mem p\<close> is what \<^verbatim>\<open>reinterpret_cast<struct inotify_event *>(buffer)\<close>
  followed by reads of the four header fields gives, \<open>mem\<close> being the bytes of the
  allocated buffer and \<open>p\<close> the offset of \<^verbatim>\<open>buffer\<close> in it. A header that does not lie
  within the allocation is \<open>None\<close>: C leaves that read undefined.
\<close>

definition read_event :: "byte list \<Rightarrow> nat \<Rightarrow> inotify_event option" where
  "read_event mem p =
     (if p + sizeof_inotify_event \<le> length mem then
        Some \<lparr> ev_wd = u32_le (mem ! p) (mem ! (p + 1)) (mem ! (p + 2)) (mem ! (p + 3)),
               ev_mask = u32_le (mem ! (p + 4)) (mem ! (p + 5)) (mem ! (p + 6)) (mem ! (p + 7)),
               ev_cookie = u32_le (mem ! (p + 8)) (mem ! (p + 9)) (mem ! (p + 10)) (mem ! (p + 11)),
               ev_len = u32_le (mem ! (p + 12)) (mem ! (p + 13)) (mem ! (p + 14)) (mem ! (p + 15)) \<rparr>
      else None)"

text \<open>
  The encoding of one record as the kernel writes it: the header, then the name
  field of \<open>ev_len\<close> bytes (the name and its null padding).
\<close>

definition encode :: "inotify_event \<times> byte list \<Rightarrow> byte list" where
  "encode r = le_bytes (ev_wd (fst r)) @ le_bytes (ev_mask (fst r)) @
              le_bytes (ev_cookie (fst r)) @ le_bytes (ev_len (fst r)) @ snd r"

definition valid_raw :: "inotify_event \<times> byte list \<Rightarrow> bool" where
  "valid_raw r = (length (snd r) = unat (ev_len (fst r)))"

section \<open>The segmentation loop of \<^verbatim>\<open>main\<close>\<close>

text \<open>
  \<^verbatim>\<open>buffer += sizeof(struct inotify_event) + iNotifyEvent->len\<close>: the sum is computed
  in \<^verbatim>\<open>size_t\<close>, 64 bits wide on the LP64 targets of the program.
\<close>

definition record_size :: "inotify_event \<Rightarrow> nat" where
  "record_size ev = unat ((16 :: 64 word) + ucast (ev_len ev))"

datatype seg_end = Finished nat | OutOfBounds nat

text \<open>
  \<^verbatim>\<open>while (buffer < bufferEnd) { ev = (inotify_event *) buffer; dump_inotify_event(ev);
  buffer += sizeof(struct inotify_event) + ev->len; }\<close>
  The result lists, in order, the offset and header of every record handed to
  \<^verbatim>\<open>dump_inotify_event\<close>, and how the loop ended: at which offset it left, or at which
  offset it read a header outside the allocation.
\<close>

function segment_loop :: "byte list \<Rightarrow> nat \<Rightarrow> nat \<Rightarrow> (nat \<times> inotify_event) list \<times> seg_end" where
  "segment_loop mem bufferEnd buffer =
     (if buffer < bufferEnd then
        (case read_event mem buffer of
           None \<Rightarrow> ([], OutOfBounds buffer)
         | Some ev \<Rightarrow>
             apfst ((#) (buffer, ev)) (segment_loop mem bufferEnd (buffer + record_size ev)))
      else ([], Finished buffer))"
  by pat_completeness auto
termination
proof (relation "measure (\<lambda>(mem, bufferEnd, buffer). bufferEnd - buffer)")
  show "wf (measure (\<lambda>(mem :: byte list, bufferEnd :: nat, buffer :: nat). bufferEnd - buffer))"
    by simp
next
  fix mem :: "byte list" and bufferEnd buffer :: nat and ev :: inotify_event
  assume lt: "buffer < bufferEnd"
  have "unat (ucast (ev_len ev) :: 64 word) = unat (ev_len ev)"
    by (simp add: unsigned_ucast_eq take_bit_nat_eq_self unsigned_less [THEN less_trans])
  moreover have "unat (ev_len ev) < 2 ^ 32"
    using unsigned_less [of "ev_len ev", where ?'a = nat] by simp
  ultimately have "record_size ev = 16 + unat (ev_len ev)"
    by (simp add: record_size_def unat_word_ariths)
  with lt show "((mem, bufferEnd, buffer + record_size ev), (mem, bufferEnd, buffer))
      \<in> measure (\<lambda>(mem, bufferEnd, buffer). bufferEnd - buffer)"
    by simp
qed

declare segment_loop.simps [simp del]

text \<open>The bytes of the record found at an offset: header plus name-length bytes.\<close>

definition record_slice :: "byte list \<Rightarrow> nat \<times> inotify_event \<Rightarrow> byte list" where
  "record_slice mem s = take (sizeof_inotify_event + unat (ev_len (snd s))) (drop (fst s) mem)"

text \<open>
  Where the records of a concatenation of encodings start, counted from \<open>p\<close>, each
  with its header: the boundaries the loop is compared with.
\<close>

fun boundaries :: "nat \<Rightarrow> (inotify_event \<times> byte list) list \<Rightarrow> (nat \<times> inotify_event) list" where
  "boundaries p [] = []"
| "boundaries p (r # rs) = (p, fst r) # boundaries (p + length (encode r)) rs"

section \<open>\<^verbatim>\<open>dump_inotify_event\<close>\<close>

definition IN_ACCESS :: "32 word" where "IN_ACCESS = 0x00000001"
definition IN_MODIFY :: "32 word" where "IN_MODIFY = 0x00000002"
definition IN_ATTRIB :: "32 word" where "IN_ATTRIB = 0x00000004"
definition IN_CLOSE_WRITE :: "32 word" where "IN_CLOSE_WRITE = 0x00000008"
definition IN_CLOSE_NOWRITE :: "32 word" where "IN_CLOSE_NOWRITE = 0x00000010"
definition IN_OPEN :: "32 word" where "IN_OPEN = 0x00000020"
definition IN_MOVED_FROM :: "32 word" where "IN_MOVED_FROM = 0x00000040"
definition IN_MOVED_TO :: "32 word" where "IN_MOVED_TO = 0x00000080"
definition IN_CREATE :: "32 word" where "IN_CREATE = 0x00000100"
definition IN_DELETE :: "32 word" where "IN_DELETE = 0x00000200"
definition IN_DELETE_SELF :: "32 word" where "IN_DELETE_SELF = 0x00000400"
definition IN_MOVE_SELF :: "32 word" where "IN_MOVE_SELF = 0x00000800"
definition IN_UNMOUNT :: "32 word" where "IN_UNMOUNT = 0x00002000"
definition IN_Q_OVERFLOW :: "32 word" where "IN_Q_OVERFLOW = 0x00004000"
definition IN_IGNORED :: "32 word" where "IN_IGNORED = 0x00008000"
definition IN_ISDIR :: "32 word" where "IN_ISDIR = 0x40000000"

text \<open>The sixteen \<^verbatim>\<open>MAP_PAIR\<close> lines of the initialiser, in the order they are written.\<close>

definition MAP_PAIRS :: "(32 word \<times> string) list" where
  "MAP_PAIRS =
    [(IN_ACCESS, ''IN_ACCESS''), (IN_ATTRIB, ''IN_ATTRIB''),
     (IN_CLOSE_WRITE, ''IN_CLOSE_WRITE''), (IN_CLOSE_NOWRITE, ''IN_CLOSE_NOWRITE''),
     (IN_CREATE, ''IN_CREATE''), (IN_DELETE, ''IN_DELETE''),
     (IN_DELETE_SELF, ''IN_DELETE_SELF''), (IN_MODIFY, ''IN_MODIFY''),
     (IN_MOVE_SELF, ''IN_MOVE_SELF''), (IN_MOVED_FROM, ''IN_MOVED_FROM''),
     (IN_MOVED_TO, ''IN_MOVED_TO''), (IN_OPEN, ''IN_OPEN''),
     (IN_IGNORED, ''IN_IGNORED''), (IN_ISDIR, ''IN_ISDIR''),
     (IN_Q_OVERFLOW, ''IN_Q_OVERFLOW''), (IN_UNMOUNT, ''IN_UNMOUNT'')]"

text \<open>
  \<^verbatim>\<open>std::map<uint32_t, std::string>\<close>: the container keeps its entries ordered by
  key, whatever the order of insertion, and an insertion with a key already present
  changes nothing. It is modelled by the list of its entries in iteration order.
\<close>

fun map_insert :: "32 word \<times> string \<Rightarrow> (32 word \<times> string) list \<Rightarrow> (32 word \<times> string) list" where
  "map_insert p [] = [p]"
| "map_insert p (q # qs) =
     (if fst p < fst q then p # q # qs
      else if fst p = fst q then q # qs
      else q # map_insert p qs)"

definition std_map :: "(32 word \<times> string) list \<Rightarrow> (32 word \<times> string) list" where
  "std_map ps = foldl (\<lambda>m p. map_insert p m) [] ps"

definition codes :: "(32 word \<times> string) list" where
  "codes = std_map MAP_PAIRS"

text \<open>
  \<^verbatim>\<open>std::cout << iNotifyEvent->name\<close> prints a C string: the bytes from the address of
  the name field up to the first null byte. \<open>None\<close> when no null byte follows within the
  allocation (the read leaves the buffer, which C leaves undefined).
\<close>

definition c_str :: "byte list \<Rightarrow> nat \<Rightarrow> byte list option" where
  "c_str mem p =
     (if 0 \<in> set (drop p mem) then Some (takeWhile (\<lambda>b. b \<noteq> 0) (drop p mem)) else None)"

record event_report =
  out_wd :: int
  out_mask :: nat
  out_cookie :: nat
  out_len :: nat
  out_name :: "byte list option"
  out_includes :: "string list"

text \<open>
  What \<^verbatim>\<open>dump_inotify_event\<close> prints for the record at offset \<open>p\<close> whose header reads
  as \<open>ev\<close>: the four header fields, the name, and one line for each entry of \<open>codes\<close>
  whose flag is in the mask, in the order of the iteration over \<open>codes\<close>.
\<close>

definition mask_includes :: "32 word \<Rightarrow> string list" where
  "mask_includes m = map snd (filter (\<lambda>it. m AND fst it \<noteq> 0) codes)"

definition dump_inotify_event :: "byte list \<Rightarrow> nat \<Rightarrow> inotify_event \<Rightarrow> event_report" where
  "dump_inotify_event mem p ev =
     \<lparr> out_wd = sint (ev_wd ev), out_mask = unat (ev_mask ev),
       out_cookie = unat (ev_cookie ev), out_len = unat (ev_len ev),
       out_name = c_str mem (p + sizeof_inotify_event),
       out_includes = mask_includes (ev_mask ev) \<rparr>"

text \<open>
  The order the specification asks for, to compare \<open>mask_includes\<close> with: the names
  of the flags in the mask in the order in which the pairs are declared.
\<close>

definition includes_in_declaration_order :: "32 word \<Rightarrow> string list" where
  "includes_in_declaration_order m = map snd (filter (\<lambda>it. m AND fst it \<noteq> 0) MAP_PAIRS)"

section \<open>The run loop of \<^verbatim>\<open>main\<close>\<close>

text \<open>
  Everything the program does to the outside is recorded in a trace: the lines it
  prints and the calls that release the watch and the descriptor.
\<close>

datatype action =
    Err_usage | Err_init | Err_add_watch
  | Completed_read
  | Dump event_report
  | Err_reading int
  | Err_unexpected_bytes
  | Ending
  | Rm_watch int int
  | Close_fd int

record state =
  errno :: int
  gblExitRequested :: bool
  bytesRead :: int
  uptrBuffer :: "byte list"
  inotifyFd :: int
  watchDescriptor :: int
  trace :: "action list"

text \<open>
  One call of \<^verbatim>\<open>read\<close>: it fails, returning -1 and setting \<^verbatim>\<open>errno\<close>, or it succeeds
  and stores bytes at the start of the buffer, at most as many as were asked for,
  leaving \<^verbatim>\<open>errno\<close> alone. \<open>sigint\<close> says whether the signal handler ran at some point
  between this evaluation of the loop condition and the next one.
\<close>

datatype read_result = Read_fail int | Read_ok "byte list"

record read_step =
  sigint :: bool
  outcome :: read_result

datatype loop_ctl = Continue | Break | Undefined

text \<open>
  The calls of \<^verbatim>\<open>dump_inotify_event\<close> made by the inner loop, one for each record in
  turn. A call whose name read leaves the allocation (\<open>out_name\<close> is \<open>None\<close>) is the
  last thing recorded, and the result is \<open>False\<close>: what the program does from there on
  is undefined.
\<close>

fun dispatch :: "byte list \<Rightarrow> (nat \<times> inotify_event) list \<Rightarrow> action list \<times> bool" where
  "dispatch mem [] = ([], True)"
| "dispatch mem (s # segs) =
     (case out_name (dump_inotify_event mem (fst s) (snd s)) of
        None \<Rightarrow> ([Dump (dump_inotify_event mem (fst s) (snd s))], False)
      | Some _ \<Rightarrow>
          apfst ((#) (Dump (dump_inotify_event mem (fst s) (snd s)))) (dispatch mem segs))"

text \<open>
  Lines 117 to 140: the body of the outer \<^verbatim>\<open>while\<close>. Stream output is taken not to
  touch \<^verbatim>\<open>errno\<close>. The iteration is \<open>Undefined\<close> when the inner loop reads a header
  or a name outside the allocation.
\<close>

definition iteration :: "state \<Rightarrow> read_step \<Rightarrow> loop_ctl \<times> state" where
  "iteration st r =
     (let st1 = st\<lparr>gblExitRequested := gblExitRequested st \<or> sigint r\<rparr> in
      case outcome r of
        Read_fail e \<Rightarrow>
          (let st2 = st1\<lparr>bytesRead := - 1, errno := e\<rparr> in
           if e = EINTR then (Continue, st2) else (Break, st2))
      | Read_ok bs \<Rightarrow>
          (let n = min (length bs) minBufferSize;
               st2 = st1\<lparr>bytesRead := int n,
                          uptrBuffer := take n bs @ drop n (uptrBuffer st1)\<rparr> in
           if n < sizeof_inotify_event then (Break, st2)
           else
             (case segment_loop (uptrBuffer st2) n 0 of
                (segs, e) \<Rightarrow>
                  (case dispatch (uptrBuffer st2) segs of
                     (ds, ok) \<Rightarrow>
                       (let st3 = st2\<lparr>trace := trace st2 @ Completed_read # ds\<rparr> in
                        if ok then
                          (case e of Finished _ \<Rightarrow> (Continue, st3)
                                   | OutOfBounds _ \<Rightarrow> (Undefined, st3))
                        else (Undefined, st3))))))"

text \<open>
  \<^verbatim>\<open>while (!gblExitRequested) { ... }\<close> against a finite script of reads. \<open>Running\<close>: the
  script is used up and the loop is about to read again. \<open>Left\<close>: the loop was left, by
  its condition or by \<^verbatim>\<open>break\<close>. \<open>Crashed\<close>: a header or a name was read outside the
  buffer.
\<close>

datatype run_result = Running state | Left state | Crashed state

fun run_loop :: "state \<Rightarrow> read_step list \<Rightarrow> run_result" where
  "run_loop st [] = (if gblExitRequested st then Left st else Running st)"
| "run_loop st (r # rs) =
     (if gblExitRequested st then Left st
      else case iteration st r of
             (Continue, st') \<Rightarrow> run_loop st' rs
           | (Break, st') \<Rightarrow> Left st'
           | (Undefined, st') \<Rightarrow> Crashed st')"

text \<open>Lines 143 to 156: the value of \<^verbatim>\<open>failure\<close>, and what is printed on the way.\<close>

definition failure :: "state \<Rightarrow> int" where
  "failure st =
     (if errno st \<noteq> EINTR then
        (if bytesRead st < 0 then 1
         else if bytesRead st \<noteq> int sizeof_inotify_event then 1
         else 0)
      else 0)"

definition diagnostics :: "state \<Rightarrow> action list" where
  "diagnostics st =
     (if errno st \<noteq> EINTR then
        (if bytesRead st < 0 then [Err_reading (errno st)]
         else if bytesRead st \<noteq> int sizeof_inotify_event then [Err_unexpected_bytes]
         else [])
      else [])"

text \<open>The two terminal states of the run loop, told apart by the exit code.\<close>

datatype terminal = Stopping | Failed

definition terminal_state :: "state \<Rightarrow> terminal" where
  "terminal_state st = (if failure st = 0 then Stopping else Failed)"

text \<open>Lines 143 to 162: from the end of the loop to \<^verbatim>\<open>return failure\<close>.\<close>

definition after_loop :: "state \<Rightarrow> int \<times> action list" where
  "after_loop st =
     (failure st,
      trace st @ diagnostics st @
        [Ending, Rm_watch (inotifyFd st) (watchDescriptor st), Close_fd (inotifyFd st)])"

datatype result = Exit int "action list" | Blocked_in_read "action list" | Undefined_behaviour "action list"

definition finish :: "run_result \<Rightarrow> result" where
  "finish r =
     (case r of
        Left st \<Rightarrow> Exit (fst (after_loop st)) (snd (after_loop st))
      | Running st \<Rightarrow> Blocked_in_read (trace st)
      | Crashed st \<Rightarrow> Undefined_behaviour (trace st))"

text \<open>
  The environment of one run of \<^verbatim>\<open>main\<close>: the argument count, what \<^verbatim>\<open>inotify_init\<close>
  and \<^verbatim>\<open>inotify_add_watch\<close> return, the value of \<^verbatim>\<open>errno\<close> when the loop is entered,
  the indeterminate initial values of \<^verbatim>\<open>bytesRead\<close> and of the buffer, and whether the
  signal handler has run before the loop condition is first evaluated. The buffer is
  \<open>minBufferSize\<close> bytes long: the indeterminate contents are cut or filled up to that
  length.
\<close>

record env =
  argc :: int
  inotify_init_result :: int
  inotify_add_watch_result :: int
  errno_at_entry :: int
  bytesRead_indeterminate :: int
  buffer_indeterminate :: "byte list"
  sigint_before_loop :: bool

definition initial_state :: "env \<Rightarrow> state" where
  "initial_state e =
     \<lparr> errno = errno_at_entry e, gblExitRequested = sigint_before_loop e,
       bytesRead = bytesRead_indeterminate e,
       uptrBuffer = take minBufferSize (buffer_indeterminate e) @
             replicate (minBufferSize - length (buffer_indeterminate e)) 0,
       inotifyFd = inotify_init_result e, watchDescriptor = inotify_add_watch_result e,
       trace = [] \<rparr>"

definition main :: "env \<Rightarrow> read_step list \<Rightarrow> result" where
  "main e script =
     (if argc e \<noteq> 2 then Exit 1 [Err_usage]
      else if inotify_init_result e < 0 then Exit 1 [Err_init]
      else if inotify_add_watch_result e < 0
        then Exit 1 [Err_add_watch, Close_fd (inotify_init_result e)]
      else finish (run_loop (initial_state e) script))"

text \<open>The two cleanup calls, to count them in a trace.\<close>

fun is_rm_watch :: "action \<Rightarrow> bool" where
  "is_rm_watch (Rm_watch _ _) = True"
| "is_rm_watch _ = False"

fun is_close_fd :: "action \<Rightarrow> bool" where
  "is_close_fd (Close_fd _) = True"
| "is_close_fd _ = False"

definition is_cleanup :: "action \<Rightarrow> bool" where
  "is_cleanup a = (is_rm_watch a \<or> is_close_fd a)"

section \<open>Properties of the wire format and of the segmentation loop\<close>

lemma record_size_eq: "record_size ev = sizeof_inotify_event + unat (ev_len ev)"
proof -
  have "unat (ucast (ev_len ev) :: 64 word) = unat (ev_len ev)"
    by (simp add: unsigned_ucast_eq take_bit_nat_eq_self unsigned_less [THEN less_trans])
  moreover have "unat (ev_len ev) < 2 ^ 32"
    using unsigned_less [of "ev_len ev", where ?'a = nat] by simp
  ultimately show ?thesis
    by (simp add: record_size_def sizeof_inotify_event_def unat_word_ariths)
qed

lemma u32_le_bytes:
  "u32_le (ucast w) (ucast (drop_bit 8 w)) (ucast (drop_bit 16 w)) (ucast (drop_bit 24 w)) = w"
proof (rule bit_word_eqI)
  fix n assume n: "n < LENGTH(32)"
  have "n < 8 \<or> (8 \<le> n \<and> n < 16) \<or> (16 \<le> n \<and> n < 24) \<or> 24 \<le> n"
    by arith
  then show "bit (u32_le (ucast w) (ucast (drop_bit 8 w)) (ucast (drop_bit 16 w))
                   (ucast (drop_bit 24 w))) n = bit w n"
    using n by (auto simp: u32_le_def bit_simps)
qed

lemma length_le_bytes [simp]: "length (le_bytes w) = 4"
  by (simp add: le_bytes_def)

lemma length_encode: "length (encode r) = sizeof_inotify_event + length (snd r)"
  by (simp add: encode_def sizeof_inotify_event_def)

lemma read_event_append:
  "read_event (pre @ xs) (length pre + p) = read_event xs p"
  by (simp add: read_event_def nth_append add.assoc)

lemma read_event_encode_0: "read_event (encode r @ rest) 0 = Some (fst r)"
  by (simp add: read_event_def encode_def le_bytes_def u32_le_bytes sizeof_inotify_event_def)

lemma read_event_encode:
  "read_event (pre @ encode r @ rest) (length pre) = Some (fst r)"
  using read_event_append [of pre "encode r @ rest" 0] by (simp add: read_event_encode_0)

lemma segment_loop_records:
  assumes "\<forall>r\<in>set rs. valid_raw r"
    and "length pre + length (concat (map encode rs)) \<le> n"
  shows "segment_loop (pre @ concat (map encode rs) @ rest) n (length pre) =
         apfst ((@) (boundaries (length pre) rs))
           (segment_loop (pre @ concat (map encode rs) @ rest) n
              (length pre + length (concat (map encode rs))))"
  using assms
proof (induction rs arbitrary: pre)
  case Nil
  then show ?case by (simp add: apfst_def map_prod_def split_def)
next
  case (Cons r rs)
  let ?m = "pre @ concat (map encode (r # rs)) @ rest"
  have v: "valid_raw r" using Cons.prems by simp
  have sz: "record_size (fst r) = length (encode r)"
    using v by (simp add: record_size_eq length_encode valid_raw_def)
  have lt: "length pre < n"
    using Cons.prems(2) by (simp add: length_encode sizeof_inotify_event_def)
  have rd: "read_event ?m (length pre) = Some (fst r)"
    using read_event_encode [of pre r "concat (map encode rs) @ rest"] by simp
  have m: "?m = (pre @ encode r) @ concat (map encode rs) @ rest" by simp
  have ih: "segment_loop ?m n (length (pre @ encode r)) =
         apfst ((@) (boundaries (length (pre @ encode r)) rs))
           (segment_loop ?m n (length (pre @ encode r) + length (concat (map encode rs))))"
    unfolding m using Cons.prems by (intro Cons.IH) auto
  have "segment_loop ?m n (length pre) =
          apfst ((#) (length pre, fst r)) (segment_loop ?m n (length pre + length (encode r)))"
    using lt rd sz by (subst segment_loop.simps) simp
  also have "\<dots> = apfst ((@) (boundaries (length pre) (r # rs)))
           (segment_loop ?m n (length pre + length (concat (map encode (r # rs)))))"
    using ih by (simp add: apfst_def map_prod_def split_def add.assoc)
  finally show ?case .
qed

lemma slices_records:
  assumes "\<forall>r\<in>set rs. valid_raw r"
  shows "map (record_slice (pre @ concat (map encode rs) @ rest)) (boundaries (length pre) rs) =
         map encode rs"
  using assms
proof (induction rs arbitrary: pre)
  case Nil
  then show ?case by simp
next
  case (Cons r rs)
  have v: "length (encode r) = sizeof_inotify_event + unat (ev_len (fst r))"
    using Cons.prems by (simp add: length_encode valid_raw_def)
  have "map (record_slice (pre @ concat (map encode (r # rs)) @ rest))
          (boundaries (length pre + length (encode r)) rs) = map encode rs"
    using Cons.IH [of "pre @ encode r"] Cons.prems by simp
  moreover have "record_slice (pre @ concat (map encode (r # rs)) @ rest) (length pre, fst r) = encode r"
    by (simp add: record_slice_def v [symmetric])
  ultimately show ?case by simp
qed

lemma length_boundaries [simp]: "length (boundaries p rs) = length rs"
  by (induction rs arbitrary: p) auto

lemma map_snd_boundaries [simp]: "map snd (boundaries p rs) = map fst rs"
  by (induction rs arbitrary: p) auto

lemma segment_loop_at_end: "n \<le> p \<Longrightarrow> segment_loop m n p = ([], Finished p)"
  by (subst segment_loop.simps) simp

text \<open>The contents of \<open>codes\<close>, in iteration order.\<close>

lemmas IN_defs = IN_ACCESS_def IN_MODIFY_def IN_ATTRIB_def IN_CLOSE_WRITE_def IN_CLOSE_NOWRITE_def
  IN_OPEN_def IN_MOVED_FROM_def IN_MOVED_TO_def IN_CREATE_def IN_DELETE_def IN_DELETE_SELF_def
  IN_MOVE_SELF_def IN_UNMOUNT_def IN_Q_OVERFLOW_def IN_IGNORED_def IN_ISDIR_def

lemma codes_eq:
  "codes =
    [(0x00000001, ''IN_ACCESS''), (0x00000002, ''IN_MODIFY''), (0x00000004, ''IN_ATTRIB''),
     (0x00000008, ''IN_CLOSE_WRITE''), (0x00000010, ''IN_CLOSE_NOWRITE''),
     (0x00000020, ''IN_OPEN''), (0x00000040, ''IN_MOVED_FROM''), (0x00000080, ''IN_MOVED_TO''),
     (0x00000100, ''IN_CREATE''), (0x00000200, ''IN_DELETE''), (0x00000400, ''IN_DELETE_SELF''),
     (0x00000800, ''IN_MOVE_SELF''), (0x00002000, ''IN_UNMOUNT''),
     (0x00004000, ''IN_Q_OVERFLOW''), (0x00008000, ''IN_IGNORED''), (0x40000000, ''IN_ISDIR'')]"
  by (simp add: codes_def std_map_def MAP_PAIRS_def IN_defs)

lemma codes_sorted: "codes = sort_key fst MAP_PAIRS"
  unfolding codes_eq by (simp add: MAP_PAIRS_def IN_defs)

text \<open>
  A name field that holds a name without null bytes followed by null padding is
  printed as the name, the padding trimmed.
\<close>

lemma c_str_padded_name:
  assumes "0 \<notin> set name"
  shows "c_str (pre @ name @ 0 # rest) (length pre) = Some name"
proof -
  have "takeWhile (\<lambda>b. b \<noteq> 0) (name @ 0 # rest) = name"
    using assms by (induction name) auto
  then show ?thesis by (simp add: c_str_def)
qed

section \<open>Properties of the run loop\<close>

text \<open>
  The loop never releases the watch or closes the descriptor, it keeps both
  descriptors, and a run that is still going on can be continued with more reads.
\<close>

lemma dispatch_no_cleanup: "filter is_cleanup (fst (dispatch m segs)) = []"
  by (induction segs) (auto simp: is_cleanup_def split: option.splits)

lemma iteration_no_cleanup:
  "filter is_cleanup (trace (snd (iteration st r))) = filter is_cleanup (trace st)"
proof -
  have "filter is_cleanup ds = []" if "dispatch m segs = (ds, ok)" for m segs ds ok
    using dispatch_no_cleanup [of m segs] that by simp
  then show ?thesis
    by (auto simp: iteration_def Let_def is_cleanup_def split: read_result.splits prod.splits seg_end.splits)
qed

lemma run_loop_no_cleanup:
  "run_loop st rs = Running st' \<Longrightarrow> filter is_cleanup (trace st') = filter is_cleanup (trace st)"
proof (induction rs arbitrary: st)
  case Nil
  then show ?case by (auto split: if_splits)
next
  case (Cons r rs)
  from Cons.prems obtain st1 where 1: "iteration st r = (Continue, st1)"
    and 2: "run_loop st1 rs = Running st'"
    by (auto split: if_splits prod.splits loop_ctl.splits)
  have "filter is_cleanup (trace st1) = filter is_cleanup (trace st)"
    using iteration_no_cleanup [of st r] 1 by simp
  with Cons.IH [OF 2] show ?case by simp
qed

lemma iteration_fds:
  "inotifyFd (snd (iteration st r)) = inotifyFd st \<and>
   watchDescriptor (snd (iteration st r)) = watchDescriptor st"
  by (auto simp: iteration_def Let_def split: read_result.splits prod.splits seg_end.splits)

lemma run_loop_fds:
  "run_loop st rs = Running st' \<Longrightarrow>
   inotifyFd st' = inotifyFd st \<and> watchDescriptor st' = watchDescriptor st"
proof (induction rs arbitrary: st)
  case Nil
  then show ?case by (auto split: if_splits)
next
  case (Cons r rs)
  from Cons.prems obtain st1 where 1: "iteration st r = (Continue, st1)"
    and 2: "run_loop st1 rs = Running st'"
    by (auto split: if_splits prod.splits loop_ctl.splits)
  show ?case
    using iteration_fds [of st r] 1 Cons.IH [OF 2] by simp
qed

lemma run_loop_Running_flag:
  "run_loop st rs = Running st' \<Longrightarrow> \<not> gblExitRequested st'"
  by (induction rs arbitrary: st) (auto split: if_splits prod.splits loop_ctl.splits)

lemma run_loop_append:
  "run_loop st pre = Running st' \<Longrightarrow> run_loop st (pre @ rs) = run_loop st' rs"
  by (induction pre arbitrary: st) (auto split: if_splits prod.splits loop_ctl.splits)

lemma iteration_interrupted:
  "iteration st \<lparr>sigint = sg, outcome = Read_fail EINTR\<rparr> =
     (Continue, st\<lparr>gblExitRequested := gblExitRequested st \<or> sg, bytesRead := - 1, errno := EINTR\<rparr>)"
  by (simp add: iteration_def)

text \<open>
  Dispatching the records of a read. In a read of at most \<open>minBufferSize\<close> bytes every
  name-length is below \<open>2 ^ 24\<close>, so each header holds a null byte: the name read of a
  record that another record follows always ends, and only the dump of the last record
  can leave the allocation.
\<close>

lemma encode_has_zero:
  assumes "valid_raw r" and "length (encode r) \<le> minBufferSize"
  shows "0 \<in> set (encode r)"
proof -
  have "unat (ev_len (fst r)) < 2 ^ 24"
    using assms by (simp add: valid_raw_def length_encode minBufferSize_def NAME_MAX_def)
  then have "unat (ev_len (fst r)) div 2 ^ 24 = 0"
    by simp
  then have "drop_bit 24 (unat (ev_len (fst r))) = 0"
    by (simp only: drop_bit_eq_div)
  then have "unat (drop_bit 24 (ev_len (fst r))) = 0"
    by (simp only: unat_drop_bit_eq)
  then have "drop_bit 24 (ev_len (fst r)) = 0"
    by (simp add: unsigned_eq_0_iff)
  then show ?thesis
    by (simp add: encode_def le_bytes_def)
qed

lemma c_str_not_None: "c_str m p \<noteq> None \<longleftrightarrow> 0 \<in> set (drop p m)"
  by (simp add: c_str_def)

lemma drop_name: "drop (length pre + sizeof_inotify_event) (pre @ encode r @ rest) = snd r @ rest"
  by (simp add: encode_def sizeof_inotify_event_def)

lemma dispatch_single:
  "fst (dispatch m [s]) = [Dump (dump_inotify_event m (fst s) (snd s))]"
  by (simp split: option.splits)

lemma dispatch_records:
  assumes "\<forall>r\<in>set rs. valid_raw r"
    and "length (concat (map encode rs)) \<le> minBufferSize"
  shows "fst (dispatch (pre @ concat (map encode rs) @ rest) (boundaries (length pre) rs)) =
         map (\<lambda>s. Dump (dump_inotify_event (pre @ concat (map encode rs) @ rest) (fst s) (snd s)))
           (boundaries (length pre) rs)"
  using assms
proof (induction rs arbitrary: pre)
  case Nil
  then show ?case by simp
next
  case (Cons r rs)
  let ?m = "pre @ concat (map encode (r # rs)) @ rest"
  show ?case
  proof (cases rs)
    case Nil
    then show ?thesis by (simp split: option.splits)
  next
    case (Cons r' rs')
    have "valid_raw r'" and "length (encode r') \<le> minBufferSize"
      using Cons.prems Cons by simp_all
    then have z: "0 \<in> set (encode r')"
      by (rule encode_has_zero)
    have "drop (length pre + sizeof_inotify_event) ?m = snd r @ concat (map encode rs) @ rest"
      using drop_name [of pre r "concat (map encode rs) @ rest"] by simp
    then have "0 \<in> set (drop (length pre + sizeof_inotify_event) ?m)"
      using z Cons by simp
    then obtain nm where nm: "out_name (dump_inotify_event ?m (length pre) (fst r)) = Some nm"
      by (auto simp: dump_inotify_event_def c_str_def)
    have ih: "fst (dispatch ?m (boundaries (length pre + length (encode r)) rs)) =
         map (\<lambda>s. Dump (dump_inotify_event ?m (fst s) (snd s)))
           (boundaries (length pre + length (encode r)) rs)"
      using Cons.IH [of "pre @ encode r"] Cons.prems by simp
    show ?thesis
      using nm ih by simp
  qed
qed

lemma snd_dispatch:
  "snd (dispatch m segs) =
     list_all (\<lambda>s. c_str m (fst s + sizeof_inotify_event) \<noteq> None) segs"
  by (induction segs) (auto simp: dump_inotify_event_def split: option.splits)

lemma takeWhile_replicate_append:
  "P x \<Longrightarrow> takeWhile P (replicate n x @ ys) = replicate n x @ takeWhile P ys"
  by (induction n) simp_all

text \<open>
  The reads interrupted, interrupted, two records, error: what the run does when the
  name read of the second record ends within the buffer.
\<close>

lemma retry_dispatch_then_io_error_names_in_buffer:
  assumes "\<not> gblExitRequested st"
    and "valid_raw r1" and "valid_raw r2"
    and "length (encode r1 @ encode r2) \<le> minBufferSize"
    and "e \<noteq> EINTR"
    and "c_str (encode r1 @ encode r2 @ drop (length (encode r1 @ encode r2)) (uptrBuffer st))
           (length (encode r1) + sizeof_inotify_event) \<noteq> None"
  shows "run_loop st [\<lparr>sigint = False, outcome = Read_fail EINTR\<rparr>,
                      \<lparr>sigint = False, outcome = Read_fail EINTR\<rparr>]
           = Running (st\<lparr>bytesRead := - 1, errno := EINTR\<rparr>)
       \<and> finish (run_loop st [\<lparr>sigint = False, outcome = Read_fail EINTR\<rparr>,
                      \<lparr>sigint = False, outcome = Read_fail EINTR\<rparr>,
                      \<lparr>sigint = False, outcome = Read_ok (encode r1 @ encode r2)\<rparr>])
           = Blocked_in_read (trace st @
               [Completed_read,
                Dump (dump_inotify_event
                  (encode r1 @ encode r2 @ drop (length (encode r1 @ encode r2)) (uptrBuffer st))
                  0 (fst r1)),
                Dump (dump_inotify_event
                  (encode r1 @ encode r2 @ drop (length (encode r1 @ encode r2)) (uptrBuffer st))
                  (length (encode r1)) (fst r2))])
       \<and> finish (run_loop st [\<lparr>sigint = False, outcome = Read_fail EINTR\<rparr>,
                      \<lparr>sigint = False, outcome = Read_fail EINTR\<rparr>,
                      \<lparr>sigint = False, outcome = Read_ok (encode r1 @ encode r2)\<rparr>,
                      \<lparr>sigint = sg, outcome = Read_fail e\<rparr>])
           = Exit 1 (trace st @
               [Completed_read,
                Dump (dump_inotify_event
                  (encode r1 @ encode r2 @ drop (length (encode r1 @ encode r2)) (uptrBuffer st))
                  0 (fst r1)),
                Dump (dump_inotify_event
                  (encode r1 @ encode r2 @ drop (length (encode r1 @ encode r2)) (uptrBuffer st))
                  (length (encode r1)) (fst r2)),
                Err_reading e, Ending,
                Rm_watch (inotifyFd st) (watchDescriptor st), Close_fd (inotifyFd st)])
       \<and> (case run_loop st [\<lparr>sigint = False, outcome = Read_fail EINTR\<rparr>,
                      \<lparr>sigint = False, outcome = Read_fail EINTR\<rparr>,
                      \<lparr>sigint = False, outcome = Read_ok (encode r1 @ encode r2)\<rparr>,
                      \<lparr>sigint = sg, outcome = Read_fail e\<rparr>] of
             Left s \<Rightarrow> terminal_state s = Failed
           | Running s \<Rightarrow> False
           | Crashed s \<Rightarrow> False)"
proof -
  let ?i = "\<lparr>sigint = False, outcome = Read_fail EINTR\<rparr>"
  let ?ok = "\<lparr>sigint = False, outcome = Read_ok (encode r1 @ encode r2)\<rparr>"
  let ?err = "\<lparr>sigint = sg, outcome = Read_fail e\<rparr>"
  let ?n = "length (encode r1 @ encode r2)"
  let ?B = "encode r1 @ encode r2 @ drop ?n (uptrBuffer st)"
  let ?st2 = "st\<lparr>bytesRead := - 1, errno := EINTR\<rparr>"
  let ?tr = "trace st @ [Completed_read, Dump (dump_inotify_event ?B 0 (fst r1)),
                Dump (dump_inotify_event ?B (length (encode r1)) (fst r2))]"
  let ?st3 = "st\<lparr>bytesRead := int ?n, errno := EINTR, uptrBuffer := ?B, trace := ?tr\<rparr>"
  let ?st4 = "?st3\<lparr>gblExitRequested := sg, bytesRead := - 1, errno := e\<rparr>"
  have two: "run_loop st [?i, ?i] = Running ?st2"
    using assms(1) by (simp add: iteration_interrupted)
  have seg: "segment_loop ?B ?n 0 = ([(0, fst r1), (length (encode r1), fst r2)], Finished ?n)"
    using segment_loop_records [of "[r1, r2]" "[]" ?n "drop ?n (uptrBuffer st)"] assms(2,3)
    by (simp add: segment_loop_at_end)
  have big: "\<not> ?n < sizeof_inotify_event"
    by (simp add: length_encode)
  have "0 \<in> set (encode r2)"
    using assms(3,4) by (intro encode_has_zero) simp_all
  then have n1: "c_str ?B (0 + sizeof_inotify_event) \<noteq> None"
    using drop_name [of "[]" r1 "encode r2 @ drop ?n (uptrBuffer st)"]
    by (simp add: c_str_def)
  have dp1: "fst (dispatch ?B [(0, fst r1), (length (encode r1), fst r2)]) =
      [Dump (dump_inotify_event ?B 0 (fst r1)),
       Dump (dump_inotify_event ?B (length (encode r1)) (fst r2))]"
    using dispatch_records [of "[r1, r2]" "[]" "drop ?n (uptrBuffer st)"] assms(2,3,4) by simp
  have dp2: "snd (dispatch ?B [(0, fst r1), (length (encode r1), fst r2)])"
    using n1 assms(6) unfolding snd_dispatch by simp
  have dp: "dispatch ?B [(0, fst r1), (length (encode r1), fst r2)] =
      ([Dump (dump_inotify_event ?B 0 (fst r1)),
        Dump (dump_inotify_event ?B (length (encode r1)) (fst r2))], True)"
    using dp1 dp2 by (simp add: prod_eq_iff)
  have it: "iteration ?st2 ?ok = (Continue, ?st3)"
    using assms(1,4) seg big dp by (simp add: iteration_def Let_def min_absorb1)
  have three: "run_loop st [?i, ?i, ?ok] = Running ?st3"
    using run_loop_append [OF two, of "[?ok]"] it assms(1) by simp
  have it4: "iteration ?st3 ?err = (Break, ?st4)"
    using assms(1,5) by (simp add: iteration_def)
  have four: "run_loop st [?i, ?i, ?ok, ?err] = Left ?st4"
    using run_loop_append [OF three, of "[?err]"] it4 assms(1) by simp
  have fl: "failure ?st4 = 1"
    using assms(5) by (simp add: failure_def)
  have dg: "diagnostics ?st4 = [Err_reading e]"
    using assms(5) by (simp add: diagnostics_def)
  show ?thesis
    unfolding two three four
    using fl dg by (simp add: finish_def after_loop_def terminal_state_def)
qed

lemmas run_defs = main_def finish_def after_loop_def failure_def diagnostics_def initial_state_def
  iteration_def Let_def minBufferSize_def sizeof_inotify_event_def NAME_MAX_def EINTR_def
  read_event_def u32_le_def record_size_def nth_append

section \<open>The claims about the segmentation loop\<close>

text \<open>
  C1. For a buffer made of K valid record encodings, one after the other, with the
  number of bytes read equal to their total length, the segmentation loop runs to the
  end of the data and finds exactly K records, the bytes of each (header plus
  name-length bytes) being the original encoding, in the original order, whatever the
  buffer holds after the data (\<open>rest\<close>). When the data fit a read (at most
  \<open>minBufferSize\<close> bytes), each of the K records is handed to \<^verbatim>\<open>dump_inotify_event\<close>, in
  that order; and an iteration of the run loop whose read returns these bytes
  (\<open>K > 0\<close>) adds to the trace the line for the completed read and then exactly these
  K dumps, in order. The iteration goes on to the next read when every name read ended
  within the buffer, and is undefined otherwise.
\<close>

theorem concatenated_records_segmented_and_dispatched:
  assumes "\<forall>r\<in>set rs. valid_raw r"
  shows "snd (segment_loop (concat (map encode rs) @ rest) (length (concat (map encode rs))) 0)
           = Finished (length (concat (map encode rs)))
       \<and> length (fst (segment_loop (concat (map encode rs) @ rest)
                        (length (concat (map encode rs))) 0)) = length rs
       \<and> map (record_slice (concat (map encode rs) @ rest))
            (fst (segment_loop (concat (map encode rs) @ rest)
                        (length (concat (map encode rs))) 0)) = map encode rs
       \<and> map snd (fst (segment_loop (concat (map encode rs) @ rest)
                        (length (concat (map encode rs))) 0)) = map fst rs
       \<and> (length (concat (map encode rs)) \<le> minBufferSize \<longrightarrow>
            fst (dispatch (concat (map encode rs) @ rest)
                  (fst (segment_loop (concat (map encode rs) @ rest)
                        (length (concat (map encode rs))) 0)))
            = map (\<lambda>s. Dump (dump_inotify_event (concat (map encode rs) @ rest) (fst s) (snd s)))
                (fst (segment_loop (concat (map encode rs) @ rest)
                        (length (concat (map encode rs))) 0)))
       \<and> (rs \<noteq> [] \<and> length (concat (map encode rs)) \<le> minBufferSize \<longrightarrow>
            trace (snd (iteration st \<lparr>sigint = sg, outcome = Read_ok (concat (map encode rs))\<rparr>))
            = trace st @ Completed_read #
                map (\<lambda>s. Dump (dump_inotify_event
                       (concat (map encode rs) @
                          drop (length (concat (map encode rs))) (uptrBuffer st))
                       (fst s) (snd s)))
                  (fst (segment_loop
                         (concat (map encode rs) @
                            drop (length (concat (map encode rs))) (uptrBuffer st))
                         (length (concat (map encode rs))) 0))
          \<and> fst (iteration st \<lparr>sigint = sg, outcome = Read_ok (concat (map encode rs))\<rparr>)
            = (if list_all
                    (\<lambda>s. c_str (concat (map encode rs) @
                                   drop (length (concat (map encode rs))) (uptrBuffer st))
                            (fst s + sizeof_inotify_event) \<noteq> None)
                    (fst (segment_loop
                           (concat (map encode rs) @
                              drop (length (concat (map encode rs))) (uptrBuffer st))
                           (length (concat (map encode rs))) 0))
               then Continue else Undefined))"
proof -
  let ?bs = "concat (map encode rs)"
  let ?n = "length ?bs"
  let ?B = "?bs @ rest"
  let ?U = "?bs @ drop ?n (uptrBuffer st)"
  let ?r = "\<lparr>sigint = sg, outcome = Read_ok ?bs\<rparr>"
  have eq: "segment_loop (?bs @ x) ?n 0 = (boundaries 0 rs, Finished ?n)" for x
  proof -
    have "segment_loop (?bs @ x) ?n 0 =
            apfst ((@) (boundaries 0 rs)) (segment_loop (?bs @ x) ?n ?n)"
      using segment_loop_records [of rs "[]" ?n x] assms by simp
    then show ?thesis by (simp add: segment_loop_at_end)
  qed
  have sl: "map (record_slice ?B) (boundaries 0 rs) = map encode rs"
    using slices_records [of rs "[]" rest] assms by simp
  have dp: "fst (dispatch (?bs @ x) (boundaries 0 rs)) =
              map (\<lambda>s. Dump (dump_inotify_event (?bs @ x) (fst s) (snd s))) (boundaries 0 rs)"
    if "?n \<le> minBufferSize" for x
    using dispatch_records [of rs "[]" x] assms that by simp
  have it: "trace (snd (iteration st ?r)) =
              trace st @ Completed_read #
                map (\<lambda>s. Dump (dump_inotify_event ?U (fst s) (snd s))) (boundaries 0 rs)
          \<and> fst (iteration st ?r) =
              (if list_all (\<lambda>s. c_str ?U (fst s + sizeof_inotify_event) \<noteq> None) (boundaries 0 rs)
               then Continue else Undefined)"
    if ne: "rs \<noteq> []" and le: "?n \<le> minBufferSize"
  proof -
    obtain r rs' where rs: "rs = r # rs'"
      using ne by (cases rs) auto
    have big: "\<not> ?n < sizeof_inotify_event"
      by (simp add: rs length_encode)
    obtain ds ok where d: "dispatch ?U (boundaries 0 rs) = (ds, ok)"
      by (cases "dispatch ?U (boundaries 0 rs)")
    have ds: "ds = map (\<lambda>s. Dump (dump_inotify_event ?U (fst s) (snd s))) (boundaries 0 rs)"
      using dp [OF le, of "drop ?n (uptrBuffer st)"] d by simp
    have ok: "ok = list_all (\<lambda>s. c_str ?U (fst s + sizeof_inotify_event) \<noteq> None) (boundaries 0 rs)"
      using snd_dispatch [of ?U "boundaries 0 rs"] d by simp
    have "iteration st ?r =
            (if ok then Continue else Undefined,
             st\<lparr>gblExitRequested := gblExitRequested st \<or> sg, bytesRead := int ?n,
                uptrBuffer := ?U, trace := trace st @ Completed_read # ds\<rparr>)"
      using le big eq [of "drop ?n (uptrBuffer st)"] d
      by (simp add: iteration_def Let_def min_absorb1)
    then show ?thesis
      by (simp add: ds ok)
  qed
  show ?thesis
    using sl dp [of rest] it
    by (simp only: eq fst_conv snd_conv length_boundaries map_snd_boundaries simp_thms) simp
qed

theorem concatenated_records_segmented_and_dispatched_witness:
  "valid_raw (\<lparr>ev_wd = 1, ev_mask = 0x100, ev_cookie = 0, ev_len = 4\<rparr>, [0x61, 0x62, 0, 0])
   \<and> valid_raw (\<lparr>ev_wd = 1, ev_mask = 0x40000020, ev_cookie = 0, ev_len = 0\<rparr>, [])
   \<and> snd (segment_loop
        [1, 0, 0, 0, 0, 1, 0, 0, 0, 0, 0, 0, 4, 0, 0, 0, 0x61, 0x62, 0, 0,
         1, 0, 0, 0, 0x20, 0, 0, 0x40, 0, 0, 0, 0, 0, 0, 0, 0] 36 0) = Finished 36
   \<and> length (fst (segment_loop
        [1, 0, 0, 0, 0, 1, 0, 0, 0, 0, 0, 0, 4, 0, 0, 0, 0x61, 0x62, 0, 0,
         1, 0, 0, 0, 0x20, 0, 0, 0x40, 0, 0, 0, 0, 0, 0, 0, 0] 36 0)) = 2
   \<and> map (record_slice
        [1, 0, 0, 0, 0, 1, 0, 0, 0, 0, 0, 0, 4, 0, 0, 0, 0x61, 0x62, 0, 0,
         1, 0, 0, 0, 0x20, 0, 0, 0x40, 0, 0, 0, 0, 0, 0, 0, 0])
       (fst (segment_loop
        [1, 0, 0, 0, 0, 1, 0, 0, 0, 0, 0, 0, 4, 0, 0, 0, 0x61, 0x62, 0, 0,
         1, 0, 0, 0, 0x20, 0, 0, 0x40, 0, 0, 0, 0, 0, 0, 0, 0] 36 0))
      = [[1, 0, 0, 0, 0, 1, 0, 0, 0, 0, 0, 0, 4, 0, 0, 0, 0x61, 0x62, 0, 0],
         [1, 0, 0, 0, 0x20, 0, 0, 0x40, 0, 0, 0, 0, 0, 0, 0, 0]]
   \<and> map snd (fst (segment_loop
        [1, 0, 0, 0, 0, 1, 0, 0, 0, 0, 0, 0, 4, 0, 0, 0, 0x61, 0x62, 0, 0,
         1, 0, 0, 0, 0x20, 0, 0, 0x40, 0, 0, 0, 0, 0, 0, 0, 0] 36 0))
      = [\<lparr>ev_wd = 1, ev_mask = 0x100, ev_cookie = 0, ev_len = 4\<rparr>,
         \<lparr>ev_wd = 1, ev_mask = 0x40000020, ev_cookie = 0, ev_len = 0\<rparr>]
   \<and> trace (snd (iteration
        (initial_state \<lparr>argc = 2, inotify_init_result = 3, inotify_add_watch_result = 1,
           errno_at_entry = 0, bytesRead_indeterminate = 0, buffer_indeterminate = [],
           sigint_before_loop = False\<rparr>)
        \<lparr>sigint = False, outcome = Read_ok
          [1, 0, 0, 0, 0, 1, 0, 0, 0, 0, 0, 0, 4, 0, 0, 0, 0x61, 0x62, 0, 0,
           1, 0, 0, 0, 0x20, 0, 0, 0x40, 0, 0, 0, 0, 0, 0, 0, 0]\<rparr>))
      = [Completed_read,
         Dump \<lparr>out_wd = 1, out_mask = 0x100, out_cookie = 0, out_len = 4,
               out_name = Some [0x61, 0x62], out_includes = [''IN_CREATE'']\<rparr>,
         Dump \<lparr>out_wd = 1, out_mask = 0x40000020, out_cookie = 0, out_len = 0,
               out_name = Some [], out_includes = [''IN_OPEN'', ''IN_ISDIR'']\<rparr>]
   \<and> fst (iteration
        (initial_state \<lparr>argc = 2, inotify_init_result = 3, inotify_add_watch_result = 1,
           errno_at_entry = 0, bytesRead_indeterminate = 0, buffer_indeterminate = [],
           sigint_before_loop = False\<rparr>)
        \<lparr>sigint = False, outcome = Read_ok
          [1, 0, 0, 0, 0, 1, 0, 0, 0, 0, 0, 0, 4, 0, 0, 0, 0x61, 0x62, 0, 0,
           1, 0, 0, 0, 0x20, 0, 0, 0x40, 0, 0, 0, 0, 0, 0, 0, 0]\<rparr>) = Continue"
proof -
  let ?rs = "[(\<lparr>ev_wd = 1, ev_mask = 0x100, ev_cookie = 0, ev_len = 4\<rparr>, [0x61, 0x62, 0, 0 :: byte]),
              (\<lparr>ev_wd = 1, ev_mask = 0x40000020, ev_cookie = 0, ev_len = 0\<rparr>, [])]"
  let ?e = "\<lparr>argc = 2, inotify_init_result = 3, inotify_add_watch_result = 1,
           errno_at_entry = 0, bytesRead_indeterminate = 0, buffer_indeterminate = [],
           sigint_before_loop = False\<rparr>"
  let ?bs = "[1, 0, 0, 0, 0, 1, 0, 0, 0, 0, 0, 0, 4, 0, 0, 0, 0x61, 0x62, 0, 0,
              1, 0, 0, 0, 0x20, 0, 0, 0x40, 0, 0, 0, 0, 0, 0, 0, 0] :: byte list"
  have v: "\<forall>r\<in>set ?rs. valid_raw r"
    by (simp add: valid_raw_def)
  have m: "map encode ?rs =
      [[1, 0, 0, 0, 0, 1, 0, 0, 0, 0, 0, 0, 4, 0, 0, 0, 0x61, 0x62, 0, 0],
       [1, 0, 0, 0, 0x20, 0, 0, 0x40, 0, 0, 0, 0, 0, 0, 0, 0]]"
    by (simp add: encode_def le_bytes_def)
  have len: "length (concat (map encode ?rs)) = 36"
    unfolding m by simp
  have enc0: "concat (map encode ?rs) @ [] = ?bs"
    unfolding m by simp
  have enc: "concat (map encode ?rs) = ?bs"
    unfolding m by simp
  have le: "(36 :: nat) \<le> minBufferSize"
    by (simp add: minBufferSize_def sizeof_inotify_event_def NAME_MAX_def)
  have buf: "drop 36 (uptrBuffer (initial_state ?e)) = replicate 236 0"
    by (simp add: initial_state_def minBufferSize_def sizeof_inotify_event_def NAME_MAX_def)
  have tr: "trace (initial_state ?e) = []"
    by (simp add: initial_state_def)
  have segs: "fst (segment_loop (?bs @ replicate 236 0) 36 0) =
      [(0, \<lparr>ev_wd = 1, ev_mask = 0x100, ev_cookie = 0, ev_len = 4\<rparr>),
       (20, \<lparr>ev_wd = 1, ev_mask = 0x40000020, ev_cookie = 0, ev_len = 0\<rparr>)]"
    by (simp add: segment_loop.simps read_event_def sizeof_inotify_event_def u32_le_def
        record_size_def nth_append)
  have d1: "dump_inotify_event (?bs @ replicate 236 0) 0
              \<lparr>ev_wd = 1, ev_mask = 0x100, ev_cookie = 0, ev_len = 4\<rparr> =
      \<lparr>out_wd = 1, out_mask = 0x100, out_cookie = 0, out_len = 4,
        out_name = Some [0x61, 0x62], out_includes = [''IN_CREATE'']\<rparr>"
    by (simp add: dump_inotify_event_def c_str_def mask_includes_def codes_eq sizeof_inotify_event_def)
  have d2: "dump_inotify_event (?bs @ replicate 236 0) 20
              \<lparr>ev_wd = 1, ev_mask = 0x40000020, ev_cookie = 0, ev_len = 0\<rparr> =
      \<lparr>out_wd = 1, out_mask = 0x40000020, out_cookie = 0, out_len = 0,
        out_name = Some [], out_includes = [''IN_OPEN'', ''IN_ISDIR'']\<rparr>"
    by (simp add: dump_inotify_event_def c_str_def mask_includes_def codes_eq sizeof_inotify_event_def)
  have c1: "c_str (?bs @ replicate 236 0) (0 + sizeof_inotify_event) \<noteq> None"
    and c2: "c_str (?bs @ replicate 236 0) (20 + sizeof_inotify_event) \<noteq> None"
    by (simp_all add: c_str_def sizeof_inotify_event_def)
  have a: "snd (segment_loop ?bs 36 0) = Finished 36
     \<and> length (fst (segment_loop ?bs 36 0)) = 2
     \<and> map (record_slice ?bs) (fst (segment_loop ?bs 36 0)) = map encode ?rs
     \<and> map snd (fst (segment_loop ?bs 36 0)) = map fst ?rs"
    using concatenated_records_segmented_and_dispatched [OF v, of "[]"]
    unfolding enc0 len by simp
  have b: "trace (snd (iteration (initial_state ?e) \<lparr>sigint = False, outcome = Read_ok ?bs\<rparr>))
        = [Completed_read,
           Dump (dump_inotify_event (?bs @ replicate 236 0) 0
              \<lparr>ev_wd = 1, ev_mask = 0x100, ev_cookie = 0, ev_len = 4\<rparr>),
           Dump (dump_inotify_event (?bs @ replicate 236 0) 20
              \<lparr>ev_wd = 1, ev_mask = 0x40000020, ev_cookie = 0, ev_len = 0\<rparr>)]
     \<and> fst (iteration (initial_state ?e) \<lparr>sigint = False, outcome = Read_ok ?bs\<rparr>) = Continue"
    using concatenated_records_segmented_and_dispatched
      [OF v, of "[]" "initial_state ?e" False] le c1 c2
    unfolding len unfolding enc buf tr segs by simp
  show ?thesis
    using v a b unfolding m d1 d2 by simp
qed





section \<open>The claims about \<^verbatim>\<open>dump_inotify_event\<close>\<close>

text \<open>
  C8, as stated, fails: for a mask with \<^verbatim>\<open>IN_ATTRIB\<close> and \<^verbatim>\<open>IN_MODIFY\<close> the program
  prints \<^verbatim>\<open>IN_MODIFY\<close> first, while \<^verbatim>\<open>IN_ATTRIB\<close> is declared first.
\<close>

theorem mask_includes_counterexample:
  "mask_includes (IN_ATTRIB OR IN_MODIFY) = [''IN_MODIFY'', ''IN_ATTRIB''] \<and>
   includes_in_declaration_order (IN_ATTRIB OR IN_MODIFY) = [''IN_ATTRIB'', ''IN_MODIFY'']"
  by (simp add: mask_includes_def includes_in_declaration_order_def codes_eq MAP_PAIRS_def IN_defs)

text \<open>
  C8, amended. For every mask, the category names are reported in ascending order of
  the numeric value of their flags, which is the iteration order of the \<^verbatim>\<open>std::map\<close>:
  the declared pairs sorted by key. The order is deterministic; it is not the order
  of declaration.
\<close>

theorem mask_includes_key_order:
  "mask_includes m = map snd (filter (\<lambda>it. m AND fst it \<noteq> 0) (sort_key fst MAP_PAIRS))
   \<and> sorted_wrt (<) (map fst (sort_key fst MAP_PAIRS))"
  unfolding mask_includes_def codes_sorted [symmetric]
  by (simp add: codes_eq)

text \<open>
  C9 (the program departs from it). A read that returns two header-only records
  (name-length 0 in both) is segmented into these two records, and for the first one
  \<^verbatim>\<open>dump_inotify_event\<close> reports name-length 0 together with a one-byte name: the
  first byte of the next record's watch descriptor, read up to the null byte that
  follows it. The name is printed as a C string whatever the name-length.
\<close>

theorem dump_reads_name_of_header_only_record:
  "map (\<lambda>s. (out_len (dump_inotify_event
                ([1, 0, 0, 0, 0x20, 0, 0, 0x40, 0, 0, 0, 0, 0, 0, 0, 0,
                  1, 0, 0, 0, 0x10, 0, 0, 0x40, 0, 0, 0, 0, 0, 0, 0, 0] @ replicate 240 0)
                (fst s) (snd s)),
              out_name (dump_inotify_event
                ([1, 0, 0, 0, 0x20, 0, 0, 0x40, 0, 0, 0, 0, 0, 0, 0, 0,
                  1, 0, 0, 0, 0x10, 0, 0, 0x40, 0, 0, 0, 0, 0, 0, 0, 0] @ replicate 240 0)
                (fst s) (snd s))))
     (fst (segment_loop
            ([1, 0, 0, 0, 0x20, 0, 0, 0x40, 0, 0, 0, 0, 0, 0, 0, 0,
              1, 0, 0, 0, 0x10, 0, 0, 0x40, 0, 0, 0, 0, 0, 0, 0, 0] @ replicate 240 0) 32 0))
   = [(0, Some [1]), (0, Some [])]"
  by (simp add: run_defs segment_loop.simps dump_inotify_event_def c_str_def)

section \<open>The claims about the run loop\<close>

text \<open>
  C2, as stated, fails: after a successful read of zero bytes the program does not read
  again; it leaves the loop, reports an unexpected number of bytes and exits.
\<close>

theorem zero_length_read_counterexample:
  "main \<lparr>argc = 2, inotify_init_result = 3, inotify_add_watch_result = 1, errno_at_entry = 0,
          bytesRead_indeterminate = 0, buffer_indeterminate = [], sigint_before_loop = False\<rparr>
     [\<lparr>sigint = False, outcome = Read_ok []\<rparr>]
   = Exit 1 [Err_unexpected_bytes, Ending, Rm_watch 3 1, Close_fd 3]"
  by (simp add: run_defs)

text \<open>
  C2, amended. In every iteration in which the read succeeds with zero bytes, no event
  is dispatched and the loop is left by \<^verbatim>\<open>break\<close>, as for every read shorter than one
  header: whatever reads would follow, the loop is not running any more.
\<close>

theorem zero_length_read_leaves_loop:
  "fst (iteration st \<lparr>sigint = sg, outcome = Read_ok []\<rparr>) = Break
   \<and> trace (snd (iteration st \<lparr>sigint = sg, outcome = Read_ok []\<rparr>)) = trace st
   \<and> bytesRead (snd (iteration st \<lparr>sigint = sg, outcome = Read_ok []\<rparr>)) = 0
   \<and> (\<forall>rs s. run_loop st (\<lparr>sigint = sg, outcome = Read_ok []\<rparr> # rs) \<noteq> Running s)"
  by (simp add: iteration_def Let_def sizeof_inotify_event_def)

text \<open>
  C4 (the program departs from it). An interrupted read followed by a successful read
  of three bytes, the cancellation flag never set: the loop is left, but \<^verbatim>\<open>errno\<close>
  still holds \<^verbatim>\<open>EINTR\<close> from the earlier read, so no diagnostic is printed and the
  exit code is 0.
\<close>

theorem short_read_after_interrupt_exits_0:
  "main \<lparr>argc = 2, inotify_init_result = 3, inotify_add_watch_result = 1, errno_at_entry = 0,
          bytesRead_indeterminate = 0, buffer_indeterminate = [], sigint_before_loop = False\<rparr>
     [\<lparr>sigint = False, outcome = Read_fail EINTR\<rparr>,
      \<lparr>sigint = False, outcome = Read_ok [1, 0, 0]\<rparr>]
   = Exit 0 [Ending, Rm_watch 3 1, Close_fd 3]"
  by (simp add: run_defs)

text \<open>
  C5. When the loop is running and the signal handler sets the flag during a read that
  fails with \<^verbatim>\<open>EINTR\<close>, the loop is left at its condition, the terminal state is
  \<open>Stopping\<close>, the process exits with code 0, and the trace of the whole run holds
  exactly one \<^verbatim>\<open>inotify_rm_watch\<close> and exactly one \<^verbatim>\<open>close\<close>.
\<close>

theorem cancel_during_interrupted_read:
  assumes "argc e = 2" and "0 \<le> inotify_init_result e" and "0 \<le> inotify_add_watch_result e"
    and "run_loop (initial_state e) pre = Running st"
  shows "run_loop (initial_state e) (pre @ \<lparr>sigint = True, outcome = Read_fail EINTR\<rparr> # rest)
           = Left (st\<lparr>gblExitRequested := True, bytesRead := - 1, errno := EINTR\<rparr>)
       \<and> terminal_state (st\<lparr>gblExitRequested := True, bytesRead := - 1, errno := EINTR\<rparr>) = Stopping
       \<and> main e (pre @ \<lparr>sigint = True, outcome = Read_fail EINTR\<rparr> # rest)
           = Exit 0 (trace st @ [Ending, Rm_watch (inotify_init_result e) (inotify_add_watch_result e),
                                 Close_fd (inotify_init_result e)])
       \<and> length (filter is_rm_watch (trace st @
            [Ending, Rm_watch (inotify_init_result e) (inotify_add_watch_result e),
             Close_fd (inotify_init_result e)])) = 1
       \<and> length (filter is_close_fd (trace st @
            [Ending, Rm_watch (inotify_init_result e) (inotify_add_watch_result e),
             Close_fd (inotify_init_result e)])) = 1"
proof -
  let ?c = "\<lparr>sigint = True, outcome = Read_fail EINTR\<rparr>"
  let ?st = "st\<lparr>gblExitRequested := True, bytesRead := - 1, errno := EINTR\<rparr>"
  have nf: "\<not> gblExitRequested st"
    using assms(4) by (rule run_loop_Running_flag)
  have "run_loop (initial_state e) (pre @ ?c # rest) = run_loop st (?c # rest)"
    using assms(4) by (rule run_loop_append)
  also have "\<dots> = run_loop ?st rest"
    using nf by (simp add: iteration_interrupted)
  also have "\<dots> = Left ?st"
    by (cases rest) simp_all
  finally have left: "run_loop (initial_state e) (pre @ ?c # rest) = Left ?st" .
  have fl: "failure ?st = 0"
    by (simp add: failure_def)
  have fds: "inotifyFd st = inotify_init_result e" "watchDescriptor st = inotify_add_watch_result e"
    using run_loop_fds [OF assms(4)] by (simp_all add: initial_state_def)
  have "filter is_cleanup (trace st) = []"
    using run_loop_no_cleanup [OF assms(4)] by (simp add: initial_state_def)
  then have none: "\<forall>a\<in>set (trace st). \<not> is_rm_watch a \<and> \<not> is_close_fd a"
    by (simp add: filter_empty_conv is_cleanup_def)
  have m: "main e (pre @ ?c # rest) = Exit 0 (trace st @ [Ending,
      Rm_watch (inotify_init_result e) (inotify_add_watch_result e), Close_fd (inotify_init_result e)])"
    using assms(1-3) left fl fds
    by (simp add: main_def finish_def after_loop_def diagnostics_def)
  have r: "filter is_rm_watch (trace st) = []" and c: "filter is_close_fd (trace st) = []"
    using none by (simp_all add: filter_empty_conv)
  show ?thesis
    using left m fl r c by (simp add: terminal_state_def)
qed


theorem cancel_during_interrupted_read_witness:
  "main \<lparr>argc = 2, inotify_init_result = 3, inotify_add_watch_result = 1, errno_at_entry = 0,
          bytesRead_indeterminate = 0, buffer_indeterminate = [], sigint_before_loop = False\<rparr>
     [\<lparr>sigint = False, outcome = Read_fail EINTR\<rparr>, \<lparr>sigint = True, outcome = Read_fail EINTR\<rparr>]
   = Exit 0 [Ending, Rm_watch 3 1, Close_fd 3]"
proof -
  let ?e = "\<lparr>argc = 2, inotify_init_result = 3, inotify_add_watch_result = 1, errno_at_entry = 0,
          bytesRead_indeterminate = 0, buffer_indeterminate = [], sigint_before_loop = False\<rparr>"
  have a: "argc ?e = 2" and b: "0 \<le> inotify_init_result ?e" and c: "0 \<le> inotify_add_watch_result ?e"
    by simp_all
  have d: "run_loop (initial_state ?e) [\<lparr>sigint = False, outcome = Read_fail EINTR\<rparr>]
      = Running ((initial_state ?e)\<lparr>gblExitRequested := False, bytesRead := - 1, errno := EINTR\<rparr>)"
    by (simp add: iteration_interrupted) (simp add: initial_state_def)
  show ?thesis
    using cancel_during_interrupted_read [OF a b c d, of "[]"]
    by (simp add: initial_state_def)
qed

text \<open>
  C6 (the program departs from it). One successful read of two header-only records
  (32 bytes) during whose dispatch the signal handler sets the flag, \<^verbatim>\<open>errno\<close> being 0:
  the loop is left at its condition because cancellation was requested, yet the program
  reports an unexpected number of bytes and exits with code 1.
\<close>

theorem cancel_after_successful_read_exits_1:
  "main \<lparr>argc = 2, inotify_init_result = 3, inotify_add_watch_result = 1, errno_at_entry = 0,
          bytesRead_indeterminate = 0, buffer_indeterminate = [], sigint_before_loop = False\<rparr>
     [\<lparr>sigint = True, outcome = Read_ok
        [1, 0, 0, 0, 0x20, 0, 0, 0x40, 0, 0, 0, 0, 0, 0, 0, 0,
         1, 0, 0, 0, 0x10, 0, 0, 0x40, 0, 0, 0, 0, 0, 0, 0, 0]\<rparr>]
   = Exit 1
      [Completed_read,
       Dump \<lparr>out_wd = 1, out_mask = 0x40000020, out_cookie = 0, out_len = 0,
             out_name = Some [1], out_includes = [''IN_OPEN'', ''IN_ISDIR'']\<rparr>,
       Dump \<lparr>out_wd = 1, out_mask = 0x40000010, out_cookie = 0, out_len = 0,
             out_name = Some [], out_includes = [''IN_CLOSE_NOWRITE'', ''IN_ISDIR'']\<rparr>,
       Err_unexpected_bytes, Ending, Rm_watch 3 1, Close_fd 3]"
  by (simp add: run_defs segment_loop.simps dump_inotify_event_def c_str_def mask_includes_def codes_eq)

text \<open>
  C7 (the program departs from it). Two interrupted reads, then a read that fills the
  buffer with two complete records, the first with a 239-byte name in a name field of
  240 bytes, the second header-only and ending at byte 272, then a failing read, the
  flag never set: both records are handed to \<^verbatim>\<open>dump_inotify_event\<close> in order, but the
  name read of the second starts just past the allocation, so the run is undefined
  from there: it reaches neither the fourth read nor the exit code 1.
\<close>

theorem retry_then_full_buffer_is_undefined:
  "main \<lparr>argc = 2, inotify_init_result = 3, inotify_add_watch_result = 1, errno_at_entry = 0,
          bytesRead_indeterminate = 0, buffer_indeterminate = [], sigint_before_loop = False\<rparr>
     [\<lparr>sigint = False, outcome = Read_fail EINTR\<rparr>,
      \<lparr>sigint = False, outcome = Read_fail EINTR\<rparr>,
      \<lparr>sigint = False, outcome = Read_ok
         ([1, 0, 0, 0, 0, 1, 0, 0, 0, 0, 0, 0, 240, 0, 0, 0] @ replicate 239 0x61 @
          [0, 1, 0, 0, 0, 0x20, 0, 0, 0x40, 0, 0, 0, 0, 0, 0, 0, 0])\<rparr>,
      \<lparr>sigint = False, outcome = Read_fail 5\<rparr>]
   = Undefined_behaviour
       [Completed_read,
        Dump \<lparr>out_wd = 1, out_mask = 0x100, out_cookie = 0, out_len = 240,
              out_name = Some (replicate 239 0x61), out_includes = [''IN_CREATE'']\<rparr>,
        Dump \<lparr>out_wd = 1, out_mask = 0x40000020, out_cookie = 0, out_len = 0,
              out_name = None, out_includes = [''IN_OPEN'', ''IN_ISDIR'']\<rparr>]"
  by (simp add: run_defs segment_loop.simps dump_inotify_event_def c_str_def mask_includes_def codes_eq
      takeWhile_replicate_append)

end
